theory Spec2Isabelle
  imports Main "HOL-Library.AList"
begin

section \<open>The menu pipeline of App.tsx\<close>

text \<open>
  A shallow embedding of the data pipeline of \<^verbatim>\<open>src/App.tsx\<close>: the bundled item list
  \<^verbatim>\<open>MENU_ITEMS\<close>, the grouping function \<^verbatim>\<open>getSectionListData\<close>, the two effects of the
  component \<^verbatim>\<open>App\<close> (\<^verbatim>\<open>initializeApp\<close> and \<^verbatim>\<open>filterData\<close>) and the handler
  \<^verbatim>\<open>toggleCategory\<close>. Strings are lists of characters; a thrown exception is the left
  summand of a sum type.
\<close>

subsection \<open>Data model\<close>

text \<open>The interfaces \<^verbatim>\<open>MenuItem\<close> and \<^verbatim>\<open>SectionData\<close> (lines 15 to 25).\<close>

record MenuItem =
  id_item :: string
  title :: string
  price :: string
  category :: string

record SectionData =
  sec_title :: string
  sec_data :: "MenuItem list"

text \<open>
  \<^verbatim>\<open>TypeError\<close> is what the engine throws when a value that is not a function is called;
  \<^verbatim>\<open>ExternalError\<close> stands for any rejection of the modules \<^verbatim>\<open>./database\<close> and
  \<^verbatim>\<open>./api\<close>.
\<close>

datatype error = TypeError | ExternalError

subsection \<open>JavaScript strings: \<^verbatim>\<open>toLowerCase\<close> and \<^verbatim>\<open>includes\<close>\<close>

text \<open>
  On a string of ASCII characters \<^verbatim>\<open>toLowerCase\<close> maps the letters A to Z to a to z and
  leaves every other character as it is. On any other string the result is given by the
  Unicode case mapping of the engine, which is not part of the sources: it is the
  parameter \<open>unicode_lower\<close> of the model, and every statement below holds for every
  such mapping. Text outside ASCII is taken in UTF-8, where one well-formed string occurs
  in another exactly when it does so code unit by code unit.
\<close>

definition is_ascii :: "char \<Rightarrow> bool" where
  "is_ascii c = (\<not> digit7 c)"

definition lower_of :: "char \<Rightarrow> char" where
  "lower_of c =
     (case map_of (zip ''ABCDEFGHIJKLMNOPQRSTUVWXYZ'' ''abcdefghijklmnopqrstuvwxyz'') c of
        Some l \<Rightarrow> l
      | None \<Rightarrow> c)"

definition toLowerCase :: "(string \<Rightarrow> string) \<Rightarrow> string \<Rightarrow> string" where
  "toLowerCase unicode_lower s =
     (if list_all is_ascii s then map lower_of s else unicode_lower s)"

text \<open>\<^verbatim>\<open>hay.includes(needle)\<close>: the needle occurs in the hay at some position.\<close>

fun starts_with :: "string \<Rightarrow> string \<Rightarrow> bool" where
  "starts_with hay [] = True"
| "starts_with [] (n # ns) = False"
| "starts_with (h # hs) (n # ns) = (h = n \<and> starts_with hs ns)"

fun includes_str :: "string \<Rightarrow> string \<Rightarrow> bool" where
  "includes_str [] needle = (needle = [])"
| "includes_str (h # hs) needle = (starts_with (h # hs) needle \<or> includes_str hs needle)"

subsection \<open>JavaScript objects used as dictionaries\<close>

text \<open>
  Both dictionaries of the program (\<^verbatim>\<open>Record<string, MenuItem[]>\<close> and
  \<^verbatim>\<open>Record<string, boolean>\<close>) are ordinary objects created by an object literal, so
  their prototype is \<^verbatim>\<open>Object.prototype\<close>. A property read \<^verbatim>\<open>obj[k]\<close> that finds no
  own property \<^verbatim>\<open>k\<close> continues on the prototype, which holds the properties listed
  here: eleven functions and the accessor \<^verbatim>\<open>__proto__\<close>, whose getter returns the
  prototype object. All twelve values are truthy and none of them has a \<^verbatim>\<open>push\<close>
  method.
\<close>

definition Object_prototype_names :: "string list" where
  "Object_prototype_names =
     [''constructor'', ''hasOwnProperty'', ''isPrototypeOf'', ''propertyIsEnumerable'',
      ''toLocaleString'', ''toString'', ''valueOf'', ''__proto__'', ''__defineGetter__'',
      ''__defineSetter__'', ''__lookupGetter__'', ''__lookupSetter__'']"

text \<open>The result of a property read: an own value, an inherited one, or \<^verbatim>\<open>undefined\<close>.\<close>

datatype 'a jsval = Undefined | Inherited | Own 'a

definition inherited_or_undefined :: "string \<Rightarrow> 'a jsval" where
  "inherited_or_undefined k = (if k \<in> set Object_prototype_names then Inherited else Undefined)"

text \<open>
  An array index is a canonical numeric string whose value is below \<open>2^32 - 1\<close>.
  \<^verbatim>\<open>Object.entries\<close> lists the own properties that are array indices first, in ascending
  numeric order, and then the other string keys in the order of their creation.
\<close>

definition digit_of :: "char \<Rightarrow> int option" where
  "digit_of c = map_of (zip ''0123456789'' [0, 1, 2, 3, 4, 5, 6, 7, 8, 9]) c"

fun parse_digits :: "int \<Rightarrow> string \<Rightarrow> int option" where
  "parse_digits acc [] = Some acc"
| "parse_digits acc (c # cs) =
     (case digit_of c of None \<Rightarrow> None | Some d \<Rightarrow> parse_digits (10 * acc + d) cs)"

definition array_index :: "string \<Rightarrow> int option" where
  "array_index k =
     (case k of
        [] \<Rightarrow> None
      | c # cs \<Rightarrow>
          if c = CHR ''0'' \<and> cs \<noteq> [] then None
          else (case parse_digits 0 k of
                  None \<Rightarrow> None
                | Some n \<Rightarrow> if n < 4294967295 then Some n else None))"

definition is_array_index :: "string \<Rightarrow> bool" where
  "is_array_index k = (array_index k \<noteq> None)"

definition index_value :: "string \<Rightarrow> int" where
  "index_value k = (case array_index k of Some n \<Rightarrow> n | None \<Rightarrow> 0)"

text \<open>
  The own properties of an object are a finite map. A read that finds no own property
  continues on the prototype.
\<close>

definition obj_get :: "(string \<rightharpoonup> 'a) \<Rightarrow> string \<Rightarrow> 'a jsval" where
  "obj_get obj k = (case obj k of Some v \<Rightarrow> Own v | None \<Rightarrow> inherited_or_undefined k)"

text \<open>
  Where the enumeration order of an object matters, the object is the list of its own
  properties in the order of their creation, and \<open>map_of\<close> gives its finite map.
\<close>

definition Object_entries :: "(string \<times> 'a) list \<Rightarrow> (string \<times> 'a) list" where
  "Object_entries obj =
     sort_key (\<lambda>e. index_value (fst e)) (filter (\<lambda>e. is_array_index (fst e)) obj)
     @ filter (\<lambda>e. \<not> is_array_index (fst e)) obj"

text \<open>
  The assignment \<^verbatim>\<open>obj[k] = v\<close> of a boolean. On an object with no own property
  \<^verbatim>\<open>__proto__\<close> the assignment to that key runs the setter inherited from
  \<^verbatim>\<open>Object.prototype\<close>, which ignores a value that is neither an object nor null.
\<close>

definition obj_set :: "(string \<rightharpoonup> bool) \<Rightarrow> string \<Rightarrow> bool \<Rightarrow> (string \<rightharpoonup> bool)" where
  "obj_set obj k v = (if k = ''__proto__'' \<and> obj k = None then obj else obj(k \<mapsto> v))"

text \<open>\<^verbatim>\<open>ToBoolean\<close> of the result of reading a boolean property.\<close>

fun truthy :: "bool jsval \<Rightarrow> bool" where
  "truthy Undefined = False"
| "truthy Inherited = True"
| "truthy (Own b) = b"

text \<open>
  \<^verbatim>\<open>[...new Set(xs)]\<close>: a set keeps its elements in the order of their first
  insertion.
\<close>

definition Set_add :: "'a \<Rightarrow> 'a list \<Rightarrow> 'a list" where
  "Set_add x seen = (if x \<in> set seen then seen else seen @ [x])"

definition new_Set :: "'a list \<Rightarrow> 'a list" where
  "new_Set xs = fold Set_add xs []"

subsection \<open>The bundled items (lines 28 to 61)\<close>

definition MENU_ITEMS :: "MenuItem list" where
  "MENU_ITEMS =
     [\<lparr>id_item = ''1'', title = ''Spinach Artichoke Dip'', price = ''10.99'',
         category = ''Appetizers''\<rparr>,
      \<lparr>id_item = ''2'', title = ''Hummus'', price = ''8.99'', category = ''Appetizers''\<rparr>,
      \<lparr>id_item = ''3'', title = ''Fried Calamari Rings'', price = ''12.99'',
         category = ''Appetizers''\<rparr>,
      \<lparr>id_item = ''4'', title = ''Fried Mushroom'', price = ''9.99'',
         category = ''Appetizers''\<rparr>,
      \<lparr>id_item = ''5'', title = ''Greek Salad'', price = ''9.99'', category = ''Salads''\<rparr>,
      \<lparr>id_item = ''6'', title = ''Caesar Salad'', price = ''8.99'', category = ''Salads''\<rparr>,
      \<lparr>id_item = ''7'', title = ''Tuna Salad'', price = ''11.99'', category = ''Salads''\<rparr>,
      \<lparr>id_item = ''8'', title = ''Grilled Chicken Salad'', price = ''12.99'',
         category = ''Salads''\<rparr>,
      \<lparr>id_item = ''9'', title = ''Water'', price = ''1.99'', category = ''Beverages''\<rparr>,
      \<lparr>id_item = ''10'', title = ''Coke'', price = ''2.99'', category = ''Beverages''\<rparr>,
      \<lparr>id_item = ''11'', title = ''Beer'', price = ''5.99'', category = ''Beverages''\<rparr>,
      \<lparr>id_item = ''12'', title = ''Ice Tea'', price = ''3.99'', category = ''Beverages''\<rparr>]"

subsection \<open>\<^verbatim>\<open>getSectionListData\<close> (lines 64 to 89)\<close>

text \<open>
  The callback of \<^verbatim>\<open>reduce\<close>. The test \<^verbatim>\<open>!acc[item.category]\<close> reads through the
  prototype; an own bucket is an array, which is truthy even when empty. When the test
  succeeds the key is neither own nor inherited, and the assignment creates a new own
  property after the existing ones. \<^verbatim>\<open>acc[item.category].push(item)\<close> then appends to
  an own bucket; on an inherited value \<^verbatim>\<open>push\<close> is \<^verbatim>\<open>undefined\<close> and the call throws.
\<close>

definition group_step ::
  "(string \<times> MenuItem list) list \<Rightarrow> MenuItem \<Rightarrow> error + (string \<times> MenuItem list) list" where
  "group_step acc item =
     (let acc1 = (case obj_get (map_of acc) (category item) of
                    Undefined \<Rightarrow> acc @ [(category item, [])]
                  | _ \<Rightarrow> acc)
      in case obj_get (map_of acc1) (category item) of
           Own bucket \<Rightarrow> Inr (AList.update (category item) (bucket @ [item]) acc1)
         | _ \<Rightarrow> Inl TypeError)"

text \<open>
  The callback of \<^verbatim>\<open>map\<close> (lines 80 to 85), applied to an entry \<^verbatim>\<open>[category, items]\<close>.
\<close>

definition mk_section :: "string \<times> MenuItem list \<Rightarrow> SectionData" where
  "mk_section e = \<lparr>sec_title = fst e, sec_data = snd e\<rparr>"

text \<open>\<^verbatim>\<open>data.reduce(callback, {})\<close>, stopping at the first exception.\<close>

fun reduce :: "('b \<Rightarrow> 'a \<Rightarrow> error + 'b) \<Rightarrow> 'b \<Rightarrow> 'a list \<Rightarrow> error + 'b" where
  "reduce f acc [] = Inr acc"
| "reduce f acc (x # xs) = (case f acc x of Inl e \<Rightarrow> Inl e | Inr acc' \<Rightarrow> reduce f acc' xs)"

definition getSectionListData :: "MenuItem list \<Rightarrow> error + SectionData list" where
  "getSectionListData data =
     (case reduce group_step [] data of
        Inl e \<Rightarrow> Inl e
      | Inr groupedData \<Rightarrow> Inr (map mk_section (Object_entries groupedData)))"

subsection \<open>The state of the component \<^verbatim>\<open>App\<close> (lines 92 to 99)\<close>

record app_state =
  searchText :: string
  data :: "SectionData list"
  filteredData :: "SectionData list"
  selectedCategories :: "string \<rightharpoonup> bool"
  categories :: "string list"
  isLoading :: bool

definition initial_state :: app_state where
  "initial_state =
     \<lparr>searchText = [], data = [], filteredData = [], selectedCategories = Map.empty,
      categories = [], isLoading = True\<rparr>"

subsection \<open>\<^verbatim>\<open>initializeApp\<close> (lines 103 to 173)\<close>

text \<open>Lines 136 to 138: the distinct categories, in the order of their first occurrence.\<close>

definition uniqueCategories :: "MenuItem list \<Rightarrow> string list" where
  "uniqueCategories items = new_Set (map category items)"

text \<open>Lines 142 to 145: every category is assigned \<^verbatim>\<open>true\<close> in a fresh object.\<close>

definition initialCategories :: "string list \<Rightarrow> (string \<rightharpoonup> bool)" where
  "initialCategories cats = fold (\<lambda>cat obj. obj_set obj cat True) cats Map.empty"

text \<open>
  Lines 136 to 151, and again lines 156 to 169 on \<^verbatim>\<open>MENU_ITEMS\<close>: the state after the
  setters that ran, and the exception of \<^verbatim>\<open>getSectionListData\<close> if it threw.
\<close>

definition populate :: "MenuItem list \<Rightarrow> app_state \<Rightarrow> app_state \<times> error option" where
  "populate items st =
     (let st1 = st\<lparr>categories := uniqueCategories items\<rparr>;
          st2 = st1\<lparr>selectedCategories := initialCategories (uniqueCategories items)\<rparr>
      in case getSectionListData items of
           Inl e \<Rightarrow> (st2, Some e)
         | Inr sectionListData \<Rightarrow>
             (st2\<lparr>data := sectionListData, filteredData := sectionListData\<rparr>, None))"

text \<open>
  The modules \<^verbatim>\<open>./database\<close> and \<^verbatim>\<open>./api\<close> are not part of the sources. Each awaited
  call is represented by its outcome: \<open>Inl\<close> when the promise rejects, \<open>Inr\<close> with the
  value when it resolves. \<^verbatim>\<open>saveMenuItems\<close> takes the fetched items. The result is the
  final state and the exception with which the promise of \<^verbatim>\<open>initializeApp\<close> rejects, if
  any.
\<close>

definition initializeApp ::
  "error + unit \<Rightarrow> error + MenuItem list \<Rightarrow> (MenuItem list \<Rightarrow> error + unit) \<Rightarrow>
   error + MenuItem list \<Rightarrow> app_state \<Rightarrow> app_state \<times> error option" where
  "initializeApp createTable fetchData saveMenuItems getMenuItems st =
     (let st0 = st\<lparr>isLoading := True\<rparr>;
          (st1, thrown) =
            (case createTable of
               Inl e \<Rightarrow> (st0, Some e)
             | Inr _ \<Rightarrow>
                 let apiError =
                       (case fetchData of
                          Inl e \<Rightarrow> Some e
                        | Inr menuItems \<Rightarrow>
                            (case saveMenuItems menuItems of Inl e \<Rightarrow> Some e | Inr _ \<Rightarrow> None))
                 in (case getMenuItems of
                       Inl e \<Rightarrow> (st0, Some e)
                     | Inr items \<Rightarrow> populate items st0));
          (st2, rejected) =
            (case thrown of
               None \<Rightarrow> (st1, None)
             | Some e \<Rightarrow> populate MENU_ITEMS st1)
      in (st2\<lparr>isLoading := False\<rparr>, rejected))"

subsection \<open>The filter effect (lines 179 to 220)\<close>

text \<open>Lines 191 to 197, the callback of \<^verbatim>\<open>filter\<close> and the filtered list.\<close>

definition matches ::
  "(string \<Rightarrow> string) \<Rightarrow> string \<Rightarrow> (string \<rightharpoonup> bool) \<Rightarrow> MenuItem \<Rightarrow> bool" where
  "matches unicode_lower search selected item =
     (let matchesSearch =
            includes_str (toLowerCase unicode_lower (title item))
              (toLowerCase unicode_lower search);
          categoryIsSelected = obj_get selected (category item)
      in matchesSearch \<and> truthy categoryIsSelected)"

definition filteredItems ::
  "(string \<Rightarrow> string) \<Rightarrow> string \<Rightarrow> (string \<rightharpoonup> bool) \<Rightarrow> MenuItem list \<Rightarrow> MenuItem list" where
  "filteredItems unicode_lower search selected allItems =
     filter (matches unicode_lower search selected) allItems"

text \<open>
  Lines 183 to 216: the sections handed to \<^verbatim>\<open>setFilteredData\<close>, by the \<^verbatim>\<open>try\<close> block
  or, when \<^verbatim>\<open>getMenuItems\<close> or the grouping threw, by the \<^verbatim>\<open>catch\<close> block on
  \<^verbatim>\<open>MENU_ITEMS\<close>; \<open>Inl\<close> when the \<^verbatim>\<open>catch\<close> block throws itself. The first
  argument after the case mapping is the outcome of this evaluation's own call of
  \<^verbatim>\<open>getMenuItems\<close> (line 188).
\<close>

definition filteredSections ::
  "(string \<Rightarrow> string) \<Rightarrow> error + MenuItem list \<Rightarrow> string \<Rightarrow> (string \<rightharpoonup> bool) \<Rightarrow>
   error + SectionData list" where
  "filteredSections unicode_lower getMenuItems search selected =
     (case (case getMenuItems of
              Inl e \<Rightarrow> Inl e
            | Inr allItems \<Rightarrow>
                getSectionListData (filteredItems unicode_lower search selected allItems)) of
        Inr sections \<Rightarrow> Inr sections
      | Inl e \<Rightarrow> getSectionListData (filteredItems unicode_lower search selected MENU_ITEMS))"

text \<open>
  One evaluation of \<^verbatim>\<open>filterData\<close>, from the search text and the selection of the
  render that started it to its call of \<^verbatim>\<open>setFilteredData\<close>.
\<close>

definition filterData ::
  "(string \<Rightarrow> string) \<Rightarrow> error + MenuItem list \<Rightarrow> app_state \<Rightarrow> app_state \<times> error option" where
  "filterData unicode_lower getMenuItems st =
     (case filteredSections unicode_lower getMenuItems (searchText st) (selectedCategories st) of
        Inr sections \<Rightarrow> (st\<lparr>filteredData := sections\<rparr>, None)
      | Inl e \<Rightarrow> (st, Some e))"

text \<open>Line 180: the effect does nothing while \<^verbatim>\<open>data\<close> is empty.\<close>

definition filterEffect ::
  "(string \<Rightarrow> string) \<Rightarrow> error + MenuItem list \<Rightarrow> app_state \<Rightarrow> app_state \<times> error option" where
  "filterEffect unicode_lower getMenuItems st =
     (if data st = [] then (st, None) else filterData unicode_lower getMenuItems st)"

subsection \<open>The handlers (lines 223 to 228 and 270)\<close>

text \<open>
  The updater of \<^verbatim>\<open>toggleCategory\<close>: the object literal copies the own properties of
  \<^verbatim>\<open>prev\<close> and then defines the own property \<^verbatim>\<open>category\<close>; a computed key always
  defines an own property. The read \<^verbatim>\<open>prev[category]\<close> goes through the prototype.
\<close>

definition toggleCategory :: "string \<Rightarrow> (string \<rightharpoonup> bool) \<Rightarrow> (string \<rightharpoonup> bool)" where
  "toggleCategory cat prev = prev(cat \<mapsto> \<not> truthy (obj_get prev cat))"

definition setSelectedCategories ::
  "((string \<rightharpoonup> bool) \<Rightarrow> (string \<rightharpoonup> bool)) \<Rightarrow> app_state \<Rightarrow> app_state" where
  "setSelectedCategories updater st = st\<lparr>selectedCategories := updater (selectedCategories st)\<rparr>"

definition setSearchText :: "string \<Rightarrow> app_state \<Rightarrow> app_state" where
  "setSearchText s st = st\<lparr>searchText := s\<rparr>"

subsection \<open>The persistent store\<close>

text \<open>
  Modelled from the spec: \<^verbatim>\<open>getMenuItems\<close> of the module \<^verbatim>\<open>./database\<close>, which is not
  among the sources. Section 4.1, step 4: read the catalog from persistent storage; if
  storage is empty or unavailable, fall back to the fixed default item list bundled with
  the system.
\<close>

datatype store = Unavailable | Rows "MenuItem list"

definition getMenuItems_spec :: "store \<Rightarrow> error + MenuItem list" where
  "getMenuItems_spec s =
     (case s of
        Unavailable \<Rightarrow> Inr MENU_ITEMS
      | Rows rows \<Rightarrow> if rows = [] then Inr MENU_ITEMS else Inr rows)"

subsection \<open>Notions used in the statements\<close>

text \<open>The position of the first occurrence of \<open>x\<close> in \<open>xs\<close>.\<close>

definition first_pos :: "'a \<Rightarrow> 'a list \<Rightarrow> nat" where
  "first_pos x xs = length (takeWhile (\<lambda>y. y \<noteq> x) xs)"

text \<open>The items shown by a list of sections, and the list read section by section.\<close>

definition flatten :: "SectionData list \<Rightarrow> MenuItem list" where
  "flatten sections = concat (map sec_data sections)"

text \<open>
  The catalog of the end-to-end scenarios of the specification, which fixes titles and
  categories and leaves identifiers and prices open.
\<close>

definition scenario_catalog ::
  "string \<Rightarrow> string \<Rightarrow> string \<Rightarrow> string \<Rightarrow> string \<Rightarrow> string \<Rightarrow> MenuItem list" where
  "scenario_catalog i1 p1 i2 p2 i3 p3 =
     [\<lparr>id_item = i1, title = ''Hummus'', price = p1, category = ''Appetizers''\<rparr>,
      \<lparr>id_item = i2, title = ''Greek Salad'', price = p2, category = ''Salads''\<rparr>,
      \<lparr>id_item = i3, title = ''Water'', price = p3, category = ''Beverages''\<rparr>]"

text \<open>
  The accumulator that the grouping builds when no exception occurs: one bucket per
  category, in the order of first occurrence, each holding the items of its category in
  the order of the input.
\<close>

definition buckets :: "MenuItem list \<Rightarrow> (string \<times> MenuItem list) list" where
  "buckets items =
     map (\<lambda>c. (c, filter (\<lambda>i. category i = c) items)) (new_Set (map category items))"

text \<open>
  An accumulator is well formed when its keys are distinct and every bucket is not empty
  and holds items of its own category only.
\<close>

definition wf_buckets :: "(string \<times> MenuItem list) list \<Rightarrow> bool" where
  "wf_buckets obj \<longleftrightarrow>
     distinct (map fst obj) \<and> (\<forall>e\<in>set obj. snd e \<noteq> [] \<and> (\<forall>i\<in>set (snd e). category i = fst e))"

section \<open>Auxiliary facts\<close>

subsection \<open>Strings and sets\<close>

lemma starts_with_iff: "starts_with hay needle \<longleftrightarrow> (\<exists>post. hay = needle @ post)"
  by (induction hay needle rule: starts_with.induct) auto

lemma includes_str_iff: "includes_str hay needle \<longleftrightarrow> (\<exists>pre post. hay = pre @ needle @ post)"
proof (induction hay)
  case Nil
  then show ?case by simp
next
  case (Cons h hs)
  show ?case
  proof
    assume "includes_str (h # hs) needle"
    then consider "starts_with (h # hs) needle" | "includes_str hs needle" by auto
    then show "\<exists>pre post. h # hs = pre @ needle @ post"
    proof cases
      case 1
      then obtain post where "h # hs = needle @ post" by (auto simp: starts_with_iff)
      then have "h # hs = [] @ needle @ post" by simp
      then show ?thesis by blast
    next
      case 2
      then obtain pre post where "hs = pre @ needle @ post" using Cons.IH by blast
      then have "h # hs = (h # pre) @ needle @ post" by simp
      then show ?thesis by blast
    qed
  next
    assume "\<exists>pre post. h # hs = pre @ needle @ post"
    then obtain pre post where eq: "h # hs = pre @ needle @ post" by blast
    show "includes_str (h # hs) needle"
    proof (cases pre)
      case Nil
      with eq have "starts_with (h # hs) needle" by (auto simp: starts_with_iff)
      then show ?thesis by simp
    next
      case (Cons p ps)
      with eq have "hs = ps @ needle @ post" by simp
      then have "includes_str hs needle" using Cons.IH by blast
      then show ?thesis by simp
    qed
  qed
qed

lemma new_Set_snoc: "new_Set (xs @ [x]) = Set_add x (new_Set xs)"
  by (simp add: new_Set_def)

lemma set_new_Set: "set (new_Set xs) = set xs"
  by (induction xs rule: rev_induct) (auto simp: new_Set_snoc Set_add_def new_Set_def)

lemma distinct_new_Set: "distinct (new_Set xs)"
  by (induction xs rule: rev_induct) (auto simp: new_Set_snoc Set_add_def new_Set_def)

subsection \<open>The accumulator of the grouping\<close>

lemma reduce_snoc:
  "reduce f acc (xs @ [x]) = (case reduce f acc xs of Inl e \<Rightarrow> Inl e | Inr acc' \<Rightarrow> f acc' x)"
  by (induction xs arbitrary: acc) (auto split: sum.splits)

lemma map_of_buckets:
  "map_of (buckets items) c =
     (if c \<in> category ` set items then Some (filter (\<lambda>i. category i = c) items) else None)"
  by (simp add: buckets_def map_of_map_restrict restrict_map_def set_new_Set)

lemma update_map_keys:
  "AList.update c v (map (\<lambda>k. (k, f k)) ks) = map (\<lambda>k. (k, if k = c then v else f k)) ks"
  if "c \<in> set ks" "distinct ks"
  using that by (induction ks) auto

lemma update_snoc_fresh:
  "c \<notin> fst ` set acc \<Longrightarrow> AList.update c v (acc @ [(c, w)]) = acc @ [(c, v)]"
  by (induction acc) auto

lemma filter_category_none:
  "c \<notin> category ` set xs \<Longrightarrow> filter (\<lambda>i. category i = c) xs = []"
  by (induction xs) auto

lemma group_step_buckets:
  assumes "category x \<notin> set Object_prototype_names"
  shows "group_step (buckets xs) x = Inr (buckets (xs @ [x]))"
proof (cases "category x \<in> category ` set xs")
  case True
  then have mem: "category x \<in> set (new_Set (map category xs))" by (simp add: set_new_Set)
  have "group_step (buckets xs) x =
      Inr (AList.update (category x) (filter (\<lambda>i. category i = category x) xs @ [x]) (buckets xs))"
    using True by (simp add: group_step_def obj_get_def map_of_buckets)
  also have "AList.update (category x) (filter (\<lambda>i. category i = category x) xs @ [x]) (buckets xs)
      = buckets (xs @ [x])"
    using mem True unfolding buckets_def
    by (subst update_map_keys) (auto simp: new_Set_snoc Set_add_def set_new_Set distinct_new_Set)
  finally show ?thesis .
next
  case False
  then have fresh: "category x \<notin> fst ` set (buckets xs)"
    by (auto simp: buckets_def set_new_Set)
  have none: "filter (\<lambda>i. category i = category x) xs = []"
    using False by (rule filter_category_none)
  have "group_step (buckets xs) x = Inr (AList.update (category x) ([] @ [x]) (buckets xs @ [(category x, [])]))"
    using False assms fresh
    by (simp add: group_step_def obj_get_def map_of_buckets inherited_or_undefined_def map_add_def)
  also have "AList.update (category x) ([] @ [x]) (buckets xs @ [(category x, [])]) = buckets xs @ [(category x, [x])]"
    using fresh by (simp add: update_snoc_fresh)
  also have "buckets xs @ [(category x, [x])] = buckets (xs @ [x])"
    using False none unfolding buckets_def
    by (auto simp: new_Set_snoc Set_add_def set_new_Set)
  finally show ?thesis .
qed

lemma reduce_group_step:
  "\<forall>i\<in>set items. category i \<notin> set Object_prototype_names \<Longrightarrow>
   reduce group_step [] items = Inr (buckets items)"
proof (induction items rule: rev_induct)
  case Nil
  then show ?case by (simp add: buckets_def new_Set_def)
next
  case (snoc x xs)
  then show ?case by (simp add: reduce_snoc group_step_buckets)
qed

subsection \<open>When the grouping returns and when it throws\<close>

lemma reduce_append:
  "reduce f acc (xs @ ys) = (case reduce f acc xs of Inl e \<Rightarrow> Inl e | Inr acc' \<Rightarrow> reduce f acc' ys)"
  by (induction xs arbitrary: acc) (auto split: sum.splits)

lemma group_step_inherited:
  assumes "category x \<in> set Object_prototype_names" and "category x \<notin> category ` set xs"
  shows "group_step (buckets xs) x = Inl TypeError"
  using assms by (simp add: group_step_def obj_get_def map_of_buckets inherited_or_undefined_def)

lemma reduce_group_step_throws:
  assumes "\<exists>i\<in>set items. category i \<in> set Object_prototype_names"
  shows "reduce group_step [] items = Inl TypeError"
proof -
  from assms obtain pre x rest where split: "items = pre @ x # rest"
    and x: "category x \<in> set Object_prototype_names"
    and pre: "\<forall>i\<in>set pre. category i \<notin> set Object_prototype_names"
    by (auto simp: split_list_first_prop_iff)
  from pre x have "category x \<notin> category ` set pre" by auto
  with x have "group_step (buckets pre) x = Inl TypeError" by (rule group_step_inherited)
  then show ?thesis
    using pre by (simp add: split reduce_append reduce_group_step)
qed

lemma getSectionListData_returns:
  "\<forall>i\<in>set items. category i \<notin> set Object_prototype_names \<Longrightarrow>
   getSectionListData items = Inr (map mk_section (Object_entries (buckets items)))"
  by (simp add: getSectionListData_def reduce_group_step mk_section_def case_prod_unfold)

lemma getSectionListData_throws:
  "\<exists>i\<in>set items. category i \<in> set Object_prototype_names \<Longrightarrow>
   getSectionListData items = Inl TypeError"
  by (simp add: getSectionListData_def reduce_group_step_throws)

lemma set_Object_entries: "set (Object_entries obj) = set obj"
  by (auto simp: Object_entries_def)

lemma length_Object_entries: "length (Object_entries obj) = length obj"
  by (simp add: Object_entries_def sum_length_filter_compl)

lemma distinct_keys_Object_entries:
  assumes "distinct (map fst obj)"
  shows "distinct (map fst (Object_entries obj))"
proof -
  have "card (set (map fst (Object_entries obj))) = length (map fst (Object_entries obj))"
    using assms distinct_card [of "map fst obj"]
    by (simp add: set_Object_entries length_Object_entries)
  then show ?thesis by (rule card_distinct)
qed

lemma Object_entries_idem: "Object_entries (Object_entries obj) = Object_entries obj"
  by (simp add: Object_entries_def filter_sort sort_key_id_if_sorted)

lemma Object_entries_no_index:
  "\<forall>e\<in>set obj. \<not> is_array_index (fst e) \<Longrightarrow> Object_entries obj = obj"
  by (simp add: Object_entries_def filter_empty_conv)

subsection \<open>Regrouping\<close>

lemma fold_Set_add_present:
  "k \<in> set seen \<Longrightarrow> \<forall>x\<in>set xs. x = k \<Longrightarrow> fold Set_add xs seen = seen"
  by (induction xs) (auto simp: Set_add_def)

lemma fold_Set_add_fresh:
  "fold Set_add xs seen = seen @ [k]" if "k \<notin> set seen" "xs \<noteq> []" "\<forall>x\<in>set xs. x = k"
proof (cases xs)
  case Nil
  then show ?thesis using that by simp
next
  case (Cons y ys)
  with that have y: "y = k" and ys: "\<forall>x\<in>set ys. x = k" by simp_all
  have "fold Set_add ys (seen @ [k]) = seen @ [k]"
    by (rule fold_Set_add_present [of k]) (simp_all add: ys)
  then show ?thesis using that(1) by (simp add: Cons y Set_add_def)
qed

lemma new_Set_append: "new_Set (xs @ ys) = fold Set_add ys (new_Set xs)"
  by (simp add: new_Set_def)

lemma new_Set_concat_buckets:
  "wf_buckets obj \<Longrightarrow> new_Set (map category (concat (map snd obj))) = map fst obj"
proof (induction obj rule: rev_induct)
  case Nil
  then show ?case by (simp add: new_Set_def)
next
  case (snoc e obj)
  then have wf: "wf_buckets obj" by (auto simp: wf_buckets_def)
  have fresh: "fst e \<notin> set (map fst obj)" using snoc.prems by (auto simp: wf_buckets_def)
  have all: "\<forall>x\<in>set (map category (snd e)). x = fst e" and ne: "map category (snd e) \<noteq> []"
    using snoc.prems by (auto simp: wf_buckets_def)
  show ?case
    using snoc.IH [OF wf] fold_Set_add_fresh [OF fresh ne all]
    by (simp add: new_Set_append)
qed

lemma filter_concat_buckets:
  "wf_buckets obj \<Longrightarrow> e \<in> set obj \<Longrightarrow>
   filter (\<lambda>i. category i = fst e) (concat (map snd obj)) = snd e"
proof (induction obj)
  case Nil
  then show ?case by simp
next
  case (Cons d obj)
  have wf: "wf_buckets obj" using Cons.prems(1) by (auto simp: wf_buckets_def)
  show ?case
  proof (cases "e = d")
    case True
    have "\<forall>i\<in>set (concat (map snd obj)). category i \<noteq> fst d"
    proof
      fix i
      assume "i \<in> set (concat (map snd obj))"
      then obtain e' where e': "e' \<in> set obj" "i \<in> set (snd e')" by auto
      then have "category i = fst e'" using Cons.prems(1) by (simp add: wf_buckets_def)
      moreover have "fst d \<notin> fst ` set obj" using Cons.prems(1) by (simp add: wf_buckets_def)
      ultimately show "category i \<noteq> fst d" using e'(1) by force
    qed
    then have "filter (\<lambda>i. category i = fst d) (concat (map snd obj)) = []"
      by (simp add: filter_empty_conv)
    moreover have "filter (\<lambda>i. category i = fst d) (snd d) = snd d"
      using Cons.prems(1) by (auto simp: wf_buckets_def)
    ultimately show ?thesis using True by simp
  next
    case False
    then have mem: "e \<in> set obj" using Cons.prems(2) by simp
    moreover have "fst d \<notin> fst ` set obj" using Cons.prems(1) by (simp add: wf_buckets_def)
    ultimately have "fst e \<noteq> fst d" by (metis imageI)
    then have "filter (\<lambda>i. category i = fst e) (snd d) = []"
      using Cons.prems(1) by (auto simp: wf_buckets_def filter_empty_conv)
    then show ?thesis using Cons.IH [OF wf mem] by simp
  qed
qed

lemma buckets_concat:
  assumes "wf_buckets obj"
  shows "buckets (concat (map snd obj)) = obj"
proof -
  have "buckets (concat (map snd obj))
      = map (\<lambda>e. (fst e, filter (\<lambda>i. category i = fst e) (concat (map snd obj)))) obj"
    by (simp add: buckets_def new_Set_concat_buckets [OF assms] comp_def)
  also have "\<dots> = obj"
    by (rule map_idI) (simp add: filter_concat_buckets [OF assms])
  finally show ?thesis .
qed

lemma wf_buckets_buckets: "wf_buckets (buckets items)"
  by (auto simp: wf_buckets_def buckets_def distinct_new_Set set_new_Set comp_def filter_empty_conv)

lemma wf_buckets_Object_entries: "wf_buckets obj \<Longrightarrow> wf_buckets (Object_entries obj)"
  by (simp add: wf_buckets_def distinct_keys_Object_entries set_Object_entries)

lemma set_concat_buckets: "set (concat (map snd (buckets items))) = set items"
  by (auto simp: buckets_def set_new_Set)

lemma flatten_sections:
  "flatten (map mk_section obj) = concat (map snd obj)"
  by (simp add: flatten_def mk_section_def comp_def)

lemma set_flatten_entries: "set (concat (map snd (Object_entries obj))) = set (concat (map snd obj))"
  by (simp add: set_Object_entries)

subsection \<open>First occurrences\<close>

lemma first_pos_snoc_old: "a \<in> set xs \<Longrightarrow> first_pos a (xs @ [x]) = first_pos a xs"
  by (simp add: first_pos_def takeWhile_append1)

lemma first_pos_less: "a \<in> set xs \<Longrightarrow> first_pos a xs < length xs"
  unfolding first_pos_def by (induction xs) auto

lemma first_pos_snoc_new: "x \<notin> set xs \<Longrightarrow> first_pos x (xs @ [x]) = length xs"
  unfolding first_pos_def by (induction xs) auto

lemma sorted_wrt_first_pos_new_Set:
  "sorted_wrt (\<lambda>a b. first_pos a xs < first_pos b xs) (new_Set xs)"
proof (induction xs rule: rev_induct)
  case Nil
  then show ?case by (simp add: new_Set_def)
next
  case (snoc x xs)
  have old: "sorted_wrt (\<lambda>a b. first_pos a (xs @ [x]) < first_pos b (xs @ [x])) (new_Set xs)"
    using snoc.IH
    by (rule sorted_wrt_mono_rel [rotated]) (simp add: set_new_Set first_pos_snoc_old)
  show ?case
  proof (cases "x \<in> set xs")
    case True
    then show ?thesis using old by (simp add: new_Set_snoc Set_add_def set_new_Set)
  next
    case False
    then have "\<forall>a\<in>set (new_Set xs). first_pos a (xs @ [x]) < first_pos x (xs @ [x])"
      by (simp add: set_new_Set first_pos_snoc_old first_pos_snoc_new first_pos_less)
    then show ?thesis
      using old False by (simp add: new_Set_snoc Set_add_def set_new_Set sorted_wrt_append)
  qed
qed

lemma titles_buckets: "map sec_title (map mk_section (buckets items)) = new_Set (map category items)"
  by (simp add: buckets_def mk_section_def comp_def)

subsection \<open>Array indices\<close>

text \<open>Different array indices have different values, so their ascending order is strict.\<close>

lemma digit_of_range: "digit_of c = Some d \<Longrightarrow> 0 \<le> d \<and> d \<le> 9"
  by (auto simp: digit_of_def split: if_splits)

lemma digit_of_inj: "digit_of c = Some d \<Longrightarrow> digit_of c' = Some d \<Longrightarrow> c = c'"
  by (auto simp: digit_of_def split: if_splits)

lemma digit_of_zero: "digit_of c = Some 0 \<Longrightarrow> c = CHR ''0''"
  by (auto simp: digit_of_def split: if_splits)

lemma parse_digits_acc:
  "parse_digits acc s =
     (case parse_digits 0 s of None \<Rightarrow> None | Some w \<Rightarrow> Some (acc * 10 ^ length s + w))"
proof (induction s arbitrary: acc)
  case Nil
  then show ?case by simp
next
  case (Cons c cs)
  show ?case
  proof (cases "digit_of c")
    case None
    then show ?thesis by simp
  next
    case (Some d)
    show ?thesis
      using Cons.IH [of "10 * acc + d"] Cons.IH [of d]
      by (simp add: Some algebra_simps split: option.splits)
  qed
qed

lemma parse_digits_ConsI:
  "digit_of c = Some d \<Longrightarrow> parse_digits 0 cs = Some v \<Longrightarrow>
   parse_digits 0 (c # cs) = Some (d * 10 ^ length cs + v)"
  using parse_digits_acc [of d cs] by simp

lemma parse_digits_ConsE:
  assumes "parse_digits 0 (c # cs) = Some w"
  obtains d v where "digit_of c = Some d" and "parse_digits 0 cs = Some v"
    and "w = d * 10 ^ length cs + v"
proof (cases "digit_of c")
  case None
  with assms show ?thesis by simp
next
  case (Some d)
  with assms have "parse_digits d cs = Some w" by simp
  then have "(case parse_digits 0 cs of None \<Rightarrow> None
               | Some v \<Rightarrow> Some (d * 10 ^ length cs + v)) = Some w"
    by (simp only: parse_digits_acc [of d cs])
  then obtain v where "parse_digits 0 cs = Some v" "w = d * 10 ^ length cs + v"
    by (auto split: option.splits)
  with Some that show ?thesis by blast
qed

lemma parse_digits_bound:
  "parse_digits 0 s = Some w \<Longrightarrow> 0 \<le> w \<and> w < 10 ^ length s"
proof (induction s arbitrary: w)
  case Nil
  then show ?case by simp
next
  case (Cons c cs)
  from Cons.prems obtain d v where d: "digit_of c = Some d" and v: "parse_digits 0 cs = Some v"
    and w: "w = d * 10 ^ length cs + v"
    by (rule parse_digits_ConsE)
  define p where "p = (10::int) ^ length cs"
  have p: "0 < p" by (simp add: p_def)
  from Cons.IH [OF v] have bv: "0 \<le> v" "v < p" by (simp_all add: p_def)
  from digit_of_range [OF d] have bd: "0 \<le> d" "d \<le> 9" by simp_all
  have "d * p \<le> 9 * p" using bd(2) p by (intro mult_right_mono) simp_all
  moreover have "0 \<le> d * p" using bd(1) p by simp
  ultimately have "0 \<le> d * p + v" "d * p + v < 10 * p" using bv by linarith+
  then show ?case unfolding w by (simp add: p_def)
qed

lemma parse_digits_inj:
  "length a = length b \<Longrightarrow> parse_digits 0 a = Some w \<Longrightarrow> parse_digits 0 b = Some w \<Longrightarrow> a = b"
proof (induction a b arbitrary: w rule: list_induct2)
  case Nil
  then show ?case by simp
next
  case (Cons c cs c' cs')
  from Cons.prems(1) obtain d v where d: "digit_of c = Some d"
    and v: "parse_digits 0 cs = Some v" and w: "w = d * 10 ^ length cs + v"
    by (rule parse_digits_ConsE)
  from Cons.prems(2) obtain d' v' where d': "digit_of c' = Some d'"
    and v': "parse_digits 0 cs' = Some v'" and w': "w = d' * 10 ^ length cs' + v'"
    by (rule parse_digits_ConsE)
  let ?p = "(10::int) ^ length cs"
  have bv: "0 \<le> v" "v < ?p" using parse_digits_bound [OF v] by simp_all
  have bv': "0 \<le> v'" "v' < ?p" using parse_digits_bound [OF v'] Cons.hyps by simp_all
  have eq: "d * ?p + v = d' * ?p + v'" using w w' Cons.hyps by simp
  have "(d * ?p + v) div ?p = d" using bv by simp
  moreover have "(d' * ?p + v') div ?p = d'" using bv' by simp
  ultimately have dd: "d = d'" using eq by simp
  then have "v = v'" using eq by simp
  with Cons.IH [OF v] v' have "cs = cs'" by simp
  moreover have "c = c'" using d d' dd by (auto intro: digit_of_inj)
  ultimately show ?case by simp
qed

lemma array_index_cases:
  assumes "array_index k = Some n"
  shows "k = ''0'' \<and> n = 0 \<or>
         (\<exists>c cs d v. k = c # cs \<and> digit_of c = Some d \<and> 1 \<le> d \<and> parse_digits 0 cs = Some v
            \<and> n = d * 10 ^ length cs + v)"
proof (cases k)
  case Nil
  with assms show ?thesis by (simp add: array_index_def)
next
  case (Cons c cs)
  from assms Cons have p: "parse_digits 0 (c # cs) = Some n"
    and lead: "\<not> (c = CHR ''0'' \<and> cs \<noteq> [])"
    by (auto simp: array_index_def split: if_splits option.splits)
  from p obtain d v where d: "digit_of c = Some d" and v: "parse_digits 0 cs = Some v"
    and n: "n = d * 10 ^ length cs + v"
    by (rule parse_digits_ConsE)
  show ?thesis
  proof (cases "d = 0")
    case True
    with d have "c = CHR ''0''" by (simp add: digit_of_zero)
    with lead have "cs = []" by simp
    with v n True Cons \<open>c = CHR ''0''\<close> show ?thesis by simp
  next
    case False
    with digit_of_range [OF d] have "1 \<le> d" by simp
    with Cons d v n show ?thesis by blast
  qed
qed

lemma array_index_length:
  assumes "k = c # cs" "digit_of c = Some d" "1 \<le> d" "parse_digits 0 cs = Some v"
    "n = d * 10 ^ length cs + v"
  shows "10 ^ (length k - 1) \<le> n \<and> n < 10 ^ length k \<and> parse_digits 0 k = Some n"
proof -
  have p: "parse_digits 0 k = Some n"
    unfolding assms(1,5) using assms(2,4) by (rule parse_digits_ConsI)
  define p where "p = (10::int) ^ length cs"
  have "0 \<le> v" using parse_digits_bound [OF assms(4)] by simp
  moreover have "1 * p \<le> d * p"
    using assms(3) by (intro mult_right_mono) (simp_all add: p_def)
  ultimately have "p \<le> d * p + v" by linarith
  then have "10 ^ length cs \<le> n" using assms(5) by (simp add: p_def)
  then show ?thesis using parse_digits_bound [OF p] p assms(1) by simp
qed

lemma array_index_inj:
  assumes "array_index a = Some n" and "array_index b = Some n"
  shows "a = b"
proof -
  consider (zero) "a = ''0''" "n = 0"
    | (pos) c cs d v where "a = c # cs" "digit_of c = Some d" "1 \<le> d"
        "parse_digits 0 cs = Some v" "n = d * 10 ^ length cs + v"
    using array_index_cases [OF assms(1)] by blast
  then show ?thesis
  proof cases
    case zero
    from array_index_cases [OF assms(2)] show ?thesis
    proof
      assume "b = ''0'' \<and> n = 0"
      with zero show ?thesis by simp
    next
      assume "\<exists>c cs d v. b = c # cs \<and> digit_of c = Some d \<and> 1 \<le> d
        \<and> parse_digits 0 cs = Some v \<and> n = d * 10 ^ length cs + v"
      then obtain c cs d v where "b = c # cs" "digit_of c = Some d" "1 \<le> d"
        "parse_digits 0 cs = Some v" "n = d * 10 ^ length cs + v" by blast
      from array_index_length [OF this] have "(10::int) ^ (length b - 1) \<le> n" by simp
      moreover have "(0::int) < 10 ^ (length b - 1)" by simp
      ultimately have False using zero(2) by linarith
      then show ?thesis ..
    qed
  next
    case pos
    from array_index_length [OF pos]
    have a: "(10::int) ^ (length a - 1) \<le> n" "n < 10 ^ length a" "parse_digits 0 a = Some n"
      by simp_all
    then have npos: "0 < n" by (smt (verit) zero_less_power)
    from array_index_cases [OF assms(2)] npos
    obtain c' cs' d' v' where "b = c' # cs'" "digit_of c' = Some d'" "1 \<le> d'"
        "parse_digits 0 cs' = Some v'" "n = d' * 10 ^ length cs' + v'" by auto
    from array_index_length [OF this]
    have b: "(10::int) ^ (length b - 1) \<le> n" "n < 10 ^ length b" "parse_digits 0 b = Some n"
      by simp_all
    have "(10::int) ^ (length a - 1) < 10 ^ length b" using a(1) b(2) by (rule le_less_trans)
    then have 1: "length a - 1 < length b" by (simp add: power_strict_increasing_iff)
    have "(10::int) ^ (length b - 1) < 10 ^ length a" using b(1) a(2) by (rule le_less_trans)
    then have 2: "length b - 1 < length a" by (simp add: power_strict_increasing_iff)
    have "length a = length b"
      using 1 2 pos(1) \<open>b = c' # cs'\<close> by simp
    then show ?thesis using a(3) b(3) by (rule parse_digits_inj)
  qed
qed

lemma index_value_inj:
  "is_array_index a \<Longrightarrow> is_array_index b \<Longrightarrow> index_value a = index_value b \<Longrightarrow> a = b"
  by (auto simp: is_array_index_def index_value_def intro: array_index_inj)

lemma strictly_ascending_indices:
  assumes "distinct ts" and "sorted (map index_value (filter is_array_index ts))"
  shows "sorted_wrt (\<lambda>a b. index_value a < index_value b) (filter is_array_index ts)"
proof -
  have "inj_on index_value (set (filter is_array_index ts))"
    by (auto intro!: inj_onI index_value_inj)
  then have "distinct (map index_value (filter is_array_index ts))"
    using assms(1) by (simp add: distinct_map)
  with assms(2) have "sorted_wrt (<) (map index_value (filter is_array_index ts))"
    by (simp add: strict_sorted_iff)
  then show ?thesis by (simp add: sorted_wrt_map)
qed

subsection \<open>The filter and the initial selection\<close>

lemma matches_iff:
  assumes "category item \<notin> set Object_prototype_names"
  shows "matches unicode_lower search selected item \<longleftrightarrow>
           (\<exists>pre post. toLowerCase unicode_lower (title item)
                         = pre @ toLowerCase unicode_lower search @ post)
           \<and> selected (category item) = Some True"
  using assms
  by (cases "selected (category item)")
     (simp_all add: matches_def obj_get_def inherited_or_undefined_def includes_str_iff)

lemma set_flatten_returns:
  assumes "\<forall>i\<in>set items. category i \<notin> set Object_prototype_names"
  shows "\<exists>sections. getSectionListData items = Inr sections \<and> set (flatten sections) = set items"
proof -
  have "set (flatten (map mk_section (Object_entries (buckets items)))) = set items"
    by (simp only: flatten_sections set_flatten_entries set_concat_buckets)
  then show ?thesis using getSectionListData_returns [OF assms] by simp
qed

lemma initialCategories_snoc:
  "initialCategories (cats @ [c]) = obj_set (initialCategories cats) c True"
  by (simp add: initialCategories_def)

lemma initialCategories_eq:
  "''__proto__'' \<notin> set cats \<Longrightarrow>
   initialCategories cats = (\<lambda>k. if k \<in> set cats then Some True else None)"
proof (induction cats rule: rev_induct)
  case Nil
  then show ?case by (simp add: initialCategories_def)
next
  case (snoc c cats)
  then have "c \<noteq> ''__proto__''" by auto
  then show ?case using snoc by (auto simp: initialCategories_snoc obj_set_def)
qed

subsection \<open>Unfolding the model on concrete inputs\<close>

lemmas eval_defs = getSectionListData_def mk_section_def group_step_def obj_get_def inherited_or_undefined_def
  Object_prototype_names_def Object_entries_def is_array_index_def array_index_def digit_of_def
  index_value_def filteredSections_def filteredItems_def matches_def toLowerCase_def is_ascii_def
  lower_of_def uniqueCategories_def initialCategories_def new_Set_def Set_add_def obj_set_def
  toggleCategory_def populate_def initializeApp_def filterEffect_def filterData_def
  setSearchText_def setSelectedCategories_def initial_state_def

subsection \<open>The effects\<close>


lemma getSectionListData_MENU_ITEMS:
  "getSectionListData MENU_ITEMS =
     Inr [\<lparr>sec_title = ''Appetizers'', sec_data = take 4 MENU_ITEMS\<rparr>,
          \<lparr>sec_title = ''Salads'', sec_data = take 4 (drop 4 MENU_ITEMS)\<rparr>,
          \<lparr>sec_title = ''Beverages'', sec_data = drop 8 MENU_ITEMS\<rparr>]"
  by (simp add: MENU_ITEMS_def eval_defs)

lemma populate_MENU_ITEMS:
  "\<exists>st'. populate MENU_ITEMS st = (st', None)
       \<and> getSectionListData MENU_ITEMS = Inr (data st') \<and> data st' \<noteq> []
       \<and> filteredData st' = data st'
       \<and> categories st' = uniqueCategories MENU_ITEMS
       \<and> selectedCategories st' = initialCategories (uniqueCategories MENU_ITEMS)
       \<and> searchText st' = searchText st \<and> isLoading st' = isLoading st"
  by (simp add: populate_def getSectionListData_MENU_ITEMS)


subsection \<open>Inputs without inherited property names\<close>

text \<open>
  Where no category is the name of a property inherited from \<^verbatim>\<open>Object.prototype\<close>, the
  grouping returns and regrouping its result changes nothing, the filter shows exactly the
  matching items of the selected categories, and, \<open>__proto__\<close> being excluded, the
  initial selection has exactly the categories of the list as keys, all mapped to true.
\<close>

lemma getSectionListData_regroup:
  assumes "\<forall>i\<in>set items. category i \<notin> set Object_prototype_names"
  shows "(\<exists>sections. getSectionListData items = Inr sections
            \<and> getSectionListData (flatten sections) = Inr sections)
         \<and> getSectionListData [] = Inr []"
proof -
  let ?E = "Object_entries (buckets items)"
  have ret: "getSectionListData items = Inr (map mk_section ?E)"
    using assms by (rule getSectionListData_returns)
  have wf: "wf_buckets ?E"
    by (simp add: wf_buckets_Object_entries wf_buckets_buckets)
  have "set (concat (map snd ?E)) = set items"
    by (simp only: set_flatten_entries set_concat_buckets)
  then have "\<forall>i\<in>set (concat (map snd ?E)). category i \<notin> set Object_prototype_names"
    using assms by simp
  then have "getSectionListData (concat (map snd ?E))
      = Inr (map mk_section (Object_entries (buckets (concat (map snd ?E)))))"
    by (rule getSectionListData_returns)
  then have again: "getSectionListData (flatten (map mk_section ?E)) = Inr (map mk_section ?E)"
    by (simp add: buckets_concat [OF wf] Object_entries_idem flatten_sections)
  have "getSectionListData [] = Inr []"
    by (simp add: getSectionListData_def Object_entries_def)
  with ret again show ?thesis by simp
qed

lemma filteredSections_correct:
  assumes "\<forall>i\<in>set items. category i \<notin> set Object_prototype_names"
  shows "\<exists>sections. filteredSections unicode_lower (Inr items) search selected = Inr sections
           \<and> (\<forall>item. item \<in> set (flatten sections) \<longleftrightarrow>
                 item \<in> set items
                 \<and> (\<exists>pre post. toLowerCase unicode_lower (title item)
                               = pre @ toLowerCase unicode_lower search @ post)
                 \<and> selected (category item) = Some True)"
proof -
  let ?kept = "filteredItems unicode_lower search selected items"
  have "\<forall>i\<in>set ?kept. category i \<notin> set Object_prototype_names"
    using assms by (simp add: filteredItems_def)
  then obtain sections where ret: "getSectionListData ?kept = Inr sections"
    and shown: "set (flatten sections) = set ?kept"
    using set_flatten_returns by blast
  have view: "filteredSections unicode_lower (Inr items) search selected = Inr sections"
    by (simp add: filteredSections_def ret)
  have iff: "item \<in> set (flatten sections) \<longleftrightarrow>
        item \<in> set items
        \<and> (\<exists>pre post. toLowerCase unicode_lower (title item)
                      = pre @ toLowerCase unicode_lower search @ post)
        \<and> selected (category item) = Some True" for item
    using assms matches_iff [of item unicode_lower search selected]
    by (auto simp: shown filteredItems_def)
  from view iff show ?thesis by auto
qed

lemma initialCategories_complete:
  assumes "''__proto__'' \<notin> category ` set items"
  shows "dom (initialCategories (uniqueCategories items)) = category ` set items
         \<and> (\<forall>c\<in>category ` set items. initialCategories (uniqueCategories items) c = Some True)
         \<and> card (dom (initialCategories (uniqueCategories items))) = card (category ` set items)"
proof -
  have "''__proto__'' \<notin> set (uniqueCategories items)"
    using assms by (simp add: uniqueCategories_def set_new_Set)
  then have eq: "initialCategories (uniqueCategories items)
      = (\<lambda>k. if k \<in> category ` set items then Some True else None)"
    by (simp add: initialCategories_eq) (simp add: uniqueCategories_def set_new_Set)
  have keys: "dom (initialCategories (uniqueCategories items)) = category ` set items"
    unfolding eq by (auto simp: dom_def split: if_splits)
  have "\<forall>c\<in>category ` set items. initialCategories (uniqueCategories items) c = Some True"
    unfolding eq by simp
  with keys show ?thesis by simp
qed

section \<open>The claims\<close>

subsection \<open>Grouping\<close>

text \<open>
  C3, as amended. For every item sequence in which no category is the name of a property
  inherited from \<^verbatim>\<open>Object.prototype\<close>, grouping returns sections with pairwise distinct
  titles, one for each category of the input. The sections whose title is an array index
  (a canonical numeric string below \<open>2^32 - 1\<close>) come first, in strictly ascending
  numeric order;
  the sections of all other categories follow, ordered by the position of the first
  occurrence of their category in the input. Every section holds exactly the items of its
  category, in the relative order of the input.
\<close>

theorem getSectionListData_order:
  assumes "\<forall>i\<in>set items. category i \<notin> set Object_prototype_names"
  shows "\<exists>sections. getSectionListData items = Inr sections
           \<and> distinct (map sec_title sections)
           \<and> set (map sec_title sections) = category ` set items
           \<and> map sec_title sections
               = filter is_array_index (map sec_title sections)
                 @ filter (\<lambda>t. \<not> is_array_index t) (map sec_title sections)
           \<and> sorted_wrt (\<lambda>a b. index_value a < index_value b)
                (filter is_array_index (map sec_title sections))
           \<and> sorted_wrt (\<lambda>a b. first_pos a (map category items) < first_pos b (map category items))
                (filter (\<lambda>t. \<not> is_array_index t) (map sec_title sections))
           \<and> (\<forall>s\<in>set sections. sec_data s = filter (\<lambda>i. category i = sec_title s) items)"
proof -
  let ?B = "buckets items"
  let ?P = "\<lambda>e :: string \<times> MenuItem list. is_array_index (fst e)"
  let ?f = "\<lambda>e :: string \<times> MenuItem list. index_value (fst e)"
  let ?S = "sort_key ?f (filter ?P ?B)"
  let ?N = "filter (\<lambda>e. \<not> ?P e) ?B"
  let ?sections = "map mk_section (Object_entries ?B)"
  have ret: "getSectionListData items = Inr ?sections"
    using assms by (rule getSectionListData_returns)
  have titles: "map sec_title ?sections = map fst ?S @ map fst ?N"
    by (simp add: Object_entries_def mk_section_def comp_def)
  have idx: "filter is_array_index (map fst ?S) = map fst ?S"
    "filter is_array_index (map fst ?N) = []"
    "filter (\<lambda>t. \<not> is_array_index t) (map fst ?S) = []"
    "filter (\<lambda>t. \<not> is_array_index t) (map fst ?N) = map fst ?N"
    by (simp_all add: filter_map comp_def filter_sort filter_empty_conv)
  have first: "filter is_array_index (map sec_title ?sections) = map fst ?S"
    and rest: "filter (\<lambda>t. \<not> is_array_index t) (map sec_title ?sections) = map fst ?N"
    unfolding titles filter_append idx by simp_all
  have split: "map sec_title ?sections
      = filter is_array_index (map sec_title ?sections)
        @ filter (\<lambda>t. \<not> is_array_index t) (map sec_title ?sections)"
    unfolding first rest by (rule titles)
  have "map index_value (map fst ?S) = map ?f ?S" by (simp add: comp_def)
  then have ascending: "sorted (map index_value (filter is_array_index (map sec_title ?sections)))"
    unfolding first by (simp only: sorted_sort_key)
  have "map fst ?N = filter (\<lambda>t. \<not> is_array_index t) (new_Set (map category items))"
    by (simp add: buckets_def filter_map comp_def)
  then have seen: "sorted_wrt (\<lambda>a b. first_pos a (map category items) < first_pos b (map category items))
      (filter (\<lambda>t. \<not> is_array_index t) (map sec_title ?sections))"
    unfolding rest by (simp only: sorted_wrt_filter sorted_wrt_first_pos_new_Set)
  have "distinct (map fst ?B)"
    by (simp add: buckets_def comp_def distinct_new_Set)
  then have "distinct (map fst (Object_entries ?B))"
    by (rule distinct_keys_Object_entries)
  then have dist: "distinct (map sec_title ?sections)"
    by (simp add: mk_section_def comp_def)
  have "map sec_title ?sections = map fst (Object_entries ?B)"
    by (simp add: mk_section_def comp_def)
  then have "set (map sec_title ?sections) = fst ` set ?B"
    by (simp only: set_map set_Object_entries)
  also have "fst ` set ?B = set (map fst ?B)" by simp
  also have "map fst ?B = new_Set (map category items)"
    by (simp add: buckets_def comp_def)
  finally have keys: "set (map sec_title ?sections) = category ` set items"
    by (simp add: set_new_Set)
  have members: "\<forall>s\<in>set ?sections. sec_data s = filter (\<lambda>i. category i = sec_title s) items"
    by (auto simp: mk_section_def set_Object_entries buckets_def)
  have strict: "sorted_wrt (\<lambda>a b. index_value a < index_value b)
      (filter is_array_index (map sec_title ?sections))"
    using dist ascending by (rule strictly_ascending_indices)
  from ret dist keys split strict seen members show ?thesis by blast
qed

theorem getSectionListData_order_witness:
  "list_all (\<lambda>i. category i \<notin> set Object_prototype_names)
     [\<lparr>id_item = ''1'', title = ''Tea'', price = ''2.49'', category = ''2''\<rparr>,
      \<lparr>id_item = ''9'', title = ''Water'', price = ''1.99'', category = ''Beverages''\<rparr>,
      \<lparr>id_item = ''2'', title = ''Soup'', price = ''4.99'', category = ''1''\<rparr>,
      \<lparr>id_item = ''3'', title = ''Hummus'', price = ''8.99'', category = ''Appetizers''\<rparr>,
      \<lparr>id_item = ''11'', title = ''Beer'', price = ''5.99'', category = ''Beverages''\<rparr>]
   \<and> getSectionListData
       [\<lparr>id_item = ''1'', title = ''Tea'', price = ''2.49'', category = ''2''\<rparr>,
        \<lparr>id_item = ''9'', title = ''Water'', price = ''1.99'', category = ''Beverages''\<rparr>,
        \<lparr>id_item = ''2'', title = ''Soup'', price = ''4.99'', category = ''1''\<rparr>,
        \<lparr>id_item = ''3'', title = ''Hummus'', price = ''8.99'', category = ''Appetizers''\<rparr>,
        \<lparr>id_item = ''11'', title = ''Beer'', price = ''5.99'', category = ''Beverages''\<rparr>]
     = Inr [\<lparr>sec_title = ''1'',
              sec_data = [\<lparr>id_item = ''2'', title = ''Soup'', price = ''4.99'', category = ''1''\<rparr>]\<rparr>,
            \<lparr>sec_title = ''2'',
              sec_data = [\<lparr>id_item = ''1'', title = ''Tea'', price = ''2.49'', category = ''2''\<rparr>]\<rparr>,
            \<lparr>sec_title = ''Beverages'',
              sec_data =
                [\<lparr>id_item = ''9'', title = ''Water'', price = ''1.99'', category = ''Beverages''\<rparr>,
                 \<lparr>id_item = ''11'', title = ''Beer'', price = ''5.99'', category = ''Beverages''\<rparr>]\<rparr>,
            \<lparr>sec_title = ''Appetizers'',
              sec_data =
                [\<lparr>id_item = ''3'', title = ''Hummus'', price = ''8.99'',
                    category = ''Appetizers''\<rparr>]\<rparr>]"
proof -
  let ?items =
    "[\<lparr>id_item = ''1'', title = ''Tea'', price = ''2.49'', category = ''2''\<rparr>,
      \<lparr>id_item = ''9'', title = ''Water'', price = ''1.99'', category = ''Beverages''\<rparr>,
      \<lparr>id_item = ''2'', title = ''Soup'', price = ''4.99'', category = ''1''\<rparr>,
      \<lparr>id_item = ''3'', title = ''Hummus'', price = ''8.99'', category = ''Appetizers''\<rparr>,
      \<lparr>id_item = ''11'', title = ''Beer'', price = ''5.99'', category = ''Beverages''\<rparr>]"
  have h: "\<forall>i\<in>set ?items. category i \<notin> set Object_prototype_names"
    by (simp add: Object_prototype_names_def)
  from getSectionListData_order [OF h]
  obtain sections where ret: "getSectionListData ?items = Inr sections"
    and "distinct (map sec_title sections)"
    by blast
  have "getSectionListData ?items
      = Inr [\<lparr>sec_title = ''1'',
               sec_data = [\<lparr>id_item = ''2'', title = ''Soup'', price = ''4.99'', category = ''1''\<rparr>]\<rparr>,
             \<lparr>sec_title = ''2'',
               sec_data = [\<lparr>id_item = ''1'', title = ''Tea'', price = ''2.49'', category = ''2''\<rparr>]\<rparr>,
             \<lparr>sec_title = ''Beverages'',
               sec_data =
                 [\<lparr>id_item = ''9'', title = ''Water'', price = ''1.99'', category = ''Beverages''\<rparr>,
                  \<lparr>id_item = ''11'', title = ''Beer'', price = ''5.99'', category = ''Beverages''\<rparr>]\<rparr>,
             \<lparr>sec_title = ''Appetizers'',
               sec_data =
                 [\<lparr>id_item = ''3'', title = ''Hummus'', price = ''8.99'',
                     category = ''Appetizers''\<rparr>]\<rparr>]"
    by (simp add: eval_defs)
  with h show ?thesis by (simp add: list_all_iff)
qed

text \<open>
  C3 as stated fails: with the categories \<open>2\<close> and \<open>1\<close>, first seen in this order,
  the section of \<open>1\<close> comes first, because \<^verbatim>\<open>Object.entries\<close> lists array indices in
  ascending numeric order.
\<close>

theorem getSectionListData_index_order_counterexample:
  "getSectionListData
     [\<lparr>id_item = ''1'', title = ''Tea'', price = ''2.49'', category = ''2''\<rparr>,
      \<lparr>id_item = ''2'', title = ''Soup'', price = ''4.99'', category = ''1''\<rparr>]
   = Inr [\<lparr>sec_title = ''1'',
            sec_data = [\<lparr>id_item = ''2'', title = ''Soup'', price = ''4.99'', category = ''1''\<rparr>]\<rparr>,
          \<lparr>sec_title = ''2'',
            sec_data = [\<lparr>id_item = ''1'', title = ''Tea'', price = ''2.49'', category = ''2''\<rparr>]\<rparr>]
   \<and> first_pos ''2'' [''2'', ''1''] < first_pos ''1'' [''2'', ''1'']"
  by (simp add: eval_defs first_pos_def)

text \<open>
  C4, at the failing input. Grouping is not total: on an item of the category
  \<open>constructor\<close> the bucket test of line 68 finds the function inherited from
  \<^verbatim>\<open>Object.prototype\<close>, so no bucket is created although the category is not yet in the
  accumulator (the comment of line 67), and the call of \<^verbatim>\<open>push\<close> in line 73 throws a
  \<^verbatim>\<open>TypeError\<close>.
\<close>

theorem getSectionListData_throws_on_constructor:
  "getSectionListData
     [\<lparr>id_item = ''1'', title = ''Apple Pie'', price = ''3.99'', category = ''constructor''\<rparr>]
   = Inl TypeError"
  by (simp add: eval_defs)

subsection \<open>The filtered view\<close>

text \<open>
  C1, at the failing input. The catalog holds Garden Salad (Salads) and Apple Pie, whose
  category is \<open>constructor\<close>. Its load ends in the \<^verbatim>\<open>catch\<close> block, which selects the
  three categories of \<^verbatim>\<open>MENU_ITEMS\<close> and leaves the search text empty. In the filter,
  Garden Salad matches the empty search text and its category is selected, but it is not
  shown: Apple Pie passes the category test of line 195 through the inherited property
  \<open>constructor\<close>, grouping throws, and the \<^verbatim>\<open>catch\<close> block publishes the sections of
  \<^verbatim>\<open>MENU_ITEMS\<close> instead. The last conjunct is the load followed by the evaluation of the
  filter.
\<close>

theorem filteredSections_hides_selected_item:
  "filteredSections unicode_lower
     (Inr [\<lparr>id_item = ''1'', title = ''Garden Salad'', price = ''7.99'', category = ''Salads''\<rparr>,
           \<lparr>id_item = ''2'', title = ''Apple Pie'', price = ''3.99'', category = ''constructor''\<rparr>])
     [] [''Appetizers'' \<mapsto> True, ''Salads'' \<mapsto> True, ''Beverages'' \<mapsto> True]
   = Inr [\<lparr>sec_title = ''Appetizers'', sec_data = take 4 MENU_ITEMS\<rparr>,
          \<lparr>sec_title = ''Salads'', sec_data = take 4 (drop 4 MENU_ITEMS)\<rparr>,
          \<lparr>sec_title = ''Beverages'', sec_data = drop 8 MENU_ITEMS\<rparr>]
   \<and> \<lparr>id_item = ''1'', title = ''Garden Salad'', price = ''7.99'', category = ''Salads''\<rparr>
       \<notin> set MENU_ITEMS
   \<and> includes_str (toLowerCase unicode_lower ''Garden Salad'') (toLowerCase unicode_lower [])
   \<and> [''Appetizers'' \<mapsto> True, ''Salads'' \<mapsto> True, ''Beverages'' \<mapsto> True] ''Salads'' = Some True
   \<and> filteredData
       (fst (filterEffect unicode_lower
          (Inr [\<lparr>id_item = ''1'', title = ''Garden Salad'', price = ''7.99'', category = ''Salads''\<rparr>,
                \<lparr>id_item = ''2'', title = ''Apple Pie'', price = ''3.99'', category = ''constructor''\<rparr>])
          (fst (initializeApp (Inr ()) fetchData saveMenuItems
             (Inr [\<lparr>id_item = ''1'', title = ''Garden Salad'', price = ''7.99'', category = ''Salads''\<rparr>,
                   \<lparr>id_item = ''2'', title = ''Apple Pie'', price = ''3.99'',
                      category = ''constructor''\<rparr>])
             initial_state))))
     = [\<lparr>sec_title = ''Appetizers'', sec_data = take 4 MENU_ITEMS\<rparr>,
        \<lparr>sec_title = ''Salads'', sec_data = take 4 (drop 4 MENU_ITEMS)\<rparr>,
        \<lparr>sec_title = ''Beverages'', sec_data = drop 8 MENU_ITEMS\<rparr>]"
  by (simp add: MENU_ITEMS_def eval_defs Let_def split: sum.splits)

subsection \<open>The initial selection\<close>

text \<open>
  C5, at the failing input. On a list whose only category is \<open>__proto__\<close> the list of
  distinct categories has one element, but the assignment of line 144 runs the setter
  inherited from \<^verbatim>\<open>Object.prototype\<close> and creates no entry: the selection map is empty,
  against the comment of line 141 that all categories are selected by default.
\<close>

theorem initialCategories_drops_proto:
  "uniqueCategories [\<lparr>id_item = ''1'', title = ''Soup'', price = ''4.99'', category = ''__proto__''\<rparr>]
     = [''__proto__'']
   \<and> initialCategories
       (uniqueCategories [\<lparr>id_item = ''1'', title = ''Soup'', price = ''4.99'', category = ''__proto__''\<rparr>])
     = Map.empty"
  by (simp add: uniqueCategories_def initialCategories_def new_Set_def Set_add_def obj_set_def)

subsection \<open>The fallback to the bundled items\<close>

text \<open>
  C2. The remote fetch fails, the persistent store is empty or unavailable, and
  \<^verbatim>\<open>getMenuItems\<close> either rejects or answers as the specification says it does on such
  a store. Then, whatever \<^verbatim>\<open>createTable\<close> did, \<^verbatim>\<open>initializeApp\<close> returns without an
  exception and publishes the bundled list: the sections are the grouping of
  \<^verbatim>\<open>MENU_ITEMS\<close>, read section by section they give \<^verbatim>\<open>MENU_ITEMS\<close> back, and the
  category list and the selection are derived from \<^verbatim>\<open>MENU_ITEMS\<close>. The bundled list has
  at least four items in at least two categories.
\<close>

theorem initializeApp_fallback:
  assumes "fetchData = Inl e"
      and "store = Unavailable \<or> store = Rows []"
      and "isl getMenuItems \<or> getMenuItems = getMenuItems_spec store"
  shows "\<exists>st'. initializeApp createTable fetchData saveMenuItems getMenuItems st = (st', None)
           \<and> getSectionListData MENU_ITEMS = Inr (data st')
           \<and> flatten (data st') = MENU_ITEMS
           \<and> filteredData st' = data st'
           \<and> categories st' = uniqueCategories MENU_ITEMS
           \<and> selectedCategories st' = initialCategories (uniqueCategories MENU_ITEMS)
           \<and> \<not> isLoading st'
           \<and> 4 \<le> length MENU_ITEMS
           \<and> 2 \<le> card (category ` set MENU_ITEMS)"
proof -
  let ?st0 = "st\<lparr>isLoading := True\<rparr>"
  obtain st1 where pop: "populate MENU_ITEMS ?st0 = (st1, None)"
    and st1: "getSectionListData MENU_ITEMS = Inr (data st1)" "filteredData st1 = data st1"
      "categories st1 = uniqueCategories MENU_ITEMS"
      "selectedCategories st1 = initialCategories (uniqueCategories MENU_ITEMS)"
    using populate_MENU_ITEMS [of ?st0] by blast
  have "data st1 =
      [\<lparr>sec_title = ''Appetizers'', sec_data = take 4 MENU_ITEMS\<rparr>,
       \<lparr>sec_title = ''Salads'', sec_data = take 4 (drop 4 MENU_ITEMS)\<rparr>,
       \<lparr>sec_title = ''Beverages'', sec_data = drop 8 MENU_ITEMS\<rparr>]"
    using st1(1) unfolding getSectionListData_MENU_ITEMS by simp
  then have flat: "flatten (data st1) = MENU_ITEMS"
    by (simp add: flatten_def MENU_ITEMS_def)
  have read: "isl getMenuItems \<or> getMenuItems = Inr MENU_ITEMS"
    using assms(2,3) by (auto simp: getMenuItems_spec_def)
  have run: "initializeApp createTable fetchData saveMenuItems getMenuItems st
      = (st1\<lparr>isLoading := False\<rparr>, None)"
    using read pop
    by (cases createTable; cases getMenuItems) (auto simp: initializeApp_def)
  have size: "4 \<le> length MENU_ITEMS" by (simp add: MENU_ITEMS_def)
  have "category ` set MENU_ITEMS = {''Appetizers'', ''Salads'', ''Beverages''}"
    by (auto simp: MENU_ITEMS_def)
  then have cats: "2 \<le> card (category ` set MENU_ITEMS)" by simp
  show ?thesis using run st1 flat size cats by simp
qed

theorem initializeApp_fallback_witness:
  "\<exists>st'. initializeApp (Inr ()) (Inl ExternalError) (\<lambda>menuItems. Inr ())
            (getMenuItems_spec (Rows [])) initial_state = (st', None)
         \<and> flatten (data st') = MENU_ITEMS
         \<and> filteredData st' = data st'
         \<and> categories st' = [''Appetizers'', ''Salads'', ''Beverages'']
         \<and> \<not> isLoading st'"
proof -
  have fetch: "(Inl ExternalError :: error + MenuItem list) = Inl ExternalError" by simp
  have empty: "Rows [] = Unavailable \<or> Rows [] = Rows []" by simp
  have read: "isl (getMenuItems_spec (Rows [])) \<or> getMenuItems_spec (Rows []) = getMenuItems_spec (Rows [])"
    by simp
  have cats: "uniqueCategories MENU_ITEMS = [''Appetizers'', ''Salads'', ''Beverages'']"
    by (simp add: MENU_ITEMS_def uniqueCategories_def new_Set_def Set_add_def)
  from initializeApp_fallback [OF fetch empty read, of "Inr ()" "\<lambda>menuItems. Inr ()" initial_state]
  show ?thesis unfolding cats by blast
qed

subsection \<open>What an evaluation of the filter publishes\<close>




subsection \<open>Toggling a category\<close>

text \<open>
  C6, as amended. For every selection map \<open>prev\<close> and category \<open>c\<close>, the toggled map
  agrees with \<open>prev\<close> at every key other than \<open>c\<close>. If \<open>c\<close> is a key of \<open>prev\<close>, its boolean
  is flipped and the keys stay the same. If \<open>c\<close> is not a key of \<open>prev\<close>, the toggle adds
  \<open>c\<close> as a new key: with the value true, or false when \<open>c\<close> names a property inherited
  from \<^verbatim>\<open>Object.prototype\<close>.
\<close>

theorem toggleCategory_frame:
  "(\<forall>k. k \<noteq> c \<longrightarrow> toggleCategory c prev k = prev k)
   \<and> (\<forall>b. prev c = Some b \<longrightarrow>
         toggleCategory c prev c = Some (\<not> b) \<and> dom (toggleCategory c prev) = dom prev)
   \<and> (prev c = None \<longrightarrow>
         toggleCategory c prev c = Some (c \<notin> set Object_prototype_names)
         \<and> dom (toggleCategory c prev) = insert c (dom prev))"
  by (auto simp: toggleCategory_def obj_get_def inherited_or_undefined_def)

theorem toggleCategory_frame_witness:
  "(''Salads'' \<noteq> ''Water'' \<and> [''Salads'' \<mapsto> True] ''Salads'' = Some True \<and> [''Salads'' \<mapsto> True] ''Water'' = None)
   \<and> toggleCategory ''Water'' [''Salads'' \<mapsto> True] ''Salads'' = Some True
   \<and> toggleCategory ''Salads'' [''Salads'' \<mapsto> True] ''Salads'' = Some False
   \<and> dom (toggleCategory ''Salads'' [''Salads'' \<mapsto> True]) = {''Salads''}
   \<and> toggleCategory ''Water'' [''Salads'' \<mapsto> True] ''Water'' = Some True
   \<and> dom (toggleCategory ''Water'' [''Salads'' \<mapsto> True]) = {''Water'', ''Salads''}"
  using toggleCategory_frame [of "''Water''" "[''Salads'' \<mapsto> True]"]
    toggleCategory_frame [of "''Salads''" "[''Salads'' \<mapsto> True]"]
  by (auto simp: Object_prototype_names_def)

text \<open>
  C6 as stated fails: toggling a category that is not a key of the map is not a no-op,
  it adds the key.
\<close>

theorem toggleCategory_adds_key:
  "toggleCategory ''Salads'' Map.empty = [''Salads'' \<mapsto> True]
   \<and> dom (toggleCategory ''Salads'' (Map.empty :: string \<rightharpoonup> bool)) = {''Salads''}"
  by (simp add: toggleCategory_def obj_get_def inherited_or_undefined_def Object_prototype_names_def)

text \<open>
  C10. For every selection map \<open>prev\<close> and every category \<open>c\<close> that is a key of \<open>prev\<close>,
  toggling \<open>c\<close> twice gives \<open>prev\<close> back.
\<close>

theorem toggleCategory_involution:
  "prev c = Some b \<Longrightarrow> toggleCategory c (toggleCategory c prev) = prev"
  by (auto simp: toggleCategory_def obj_get_def)

theorem toggleCategory_involution_witness:
  "[''Salads'' \<mapsto> True] ''Salads'' = Some True
   \<and> toggleCategory ''Salads'' (toggleCategory ''Salads'' [''Salads'' \<mapsto> True]) = [''Salads'' \<mapsto> True]"
  using toggleCategory_involution [of "[''Salads'' \<mapsto> True]" "''Salads''" True] by simp

subsection \<open>The end-to-end scenarios\<close>

text \<open>
  C7. The catalog is Hummus (Appetizers), Greek Salad (Salads) and Water (Beverages).
  The initial load, which selects every category, is followed by the evaluation of the
  filter that it triggers; then the search text changes to \<open>sa\<close> and the filter is
  evaluated again. The published state then has the search text \<open>sa\<close>, all three
  categories selected, and a filtered view of exactly one section, titled Salads, that
  holds exactly the item Greek Salad. The second conjunct is the value of the filter at
  these inputs.
\<close>

theorem scenario_search_sa:
  "fst (filterEffect unicode_lower (Inr (scenario_catalog i1 p1 i2 p2 i3 p3))
     (setSearchText ''sa''
       (fst (filterEffect unicode_lower (Inr (scenario_catalog i1 p1 i2 p2 i3 p3))
         (fst (initializeApp (Inr ()) fetchData saveMenuItems
            (Inr (scenario_catalog i1 p1 i2 p2 i3 p3)) initial_state))))))
   = \<lparr>searchText = ''sa'',
      data = [\<lparr>sec_title = ''Appetizers'',
                sec_data = [\<lparr>id_item = i1, title = ''Hummus'', price = p1, category = ''Appetizers''\<rparr>]\<rparr>,
              \<lparr>sec_title = ''Salads'',
                sec_data = [\<lparr>id_item = i2, title = ''Greek Salad'', price = p2, category = ''Salads''\<rparr>]\<rparr>,
              \<lparr>sec_title = ''Beverages'',
                sec_data = [\<lparr>id_item = i3, title = ''Water'', price = p3, category = ''Beverages''\<rparr>]\<rparr>],
      filteredData =
        [\<lparr>sec_title = ''Salads'',
           sec_data = [\<lparr>id_item = i2, title = ''Greek Salad'', price = p2, category = ''Salads''\<rparr>]\<rparr>],
      selectedCategories = [''Appetizers'' \<mapsto> True, ''Salads'' \<mapsto> True, ''Beverages'' \<mapsto> True],
      categories = [''Appetizers'', ''Salads'', ''Beverages''],
      isLoading = False\<rparr>
   \<and> filteredSections unicode_lower (Inr (scenario_catalog i1 p1 i2 p2 i3 p3)) ''sa''
       [''Appetizers'' \<mapsto> True, ''Salads'' \<mapsto> True, ''Beverages'' \<mapsto> True]
     = Inr [\<lparr>sec_title = ''Salads'',
              sec_data = [\<lparr>id_item = i2, title = ''Greek Salad'', price = p2, category = ''Salads''\<rparr>]\<rparr>]"
  by (simp add: scenario_catalog_def eval_defs Let_def split: sum.splits)

text \<open>
  C8. On the same catalog, the initial load and the evaluation of the filter that it
  triggers are followed by a press on the category Appetizers and another evaluation of
  the filter. The published state then has the empty search text, Appetizers mapped to
  false and the two other categories to true, and a filtered view with no Appetizers
  section at all: it consists of the Salads section with Greek Salad and the Beverages
  section with Water. The second conjunct is the value of the filter at these inputs.
\<close>

theorem scenario_appetizers_off:
  "fst (filterEffect unicode_lower (Inr (scenario_catalog i1 p1 i2 p2 i3 p3))
     (setSelectedCategories (toggleCategory ''Appetizers'')
       (fst (filterEffect unicode_lower (Inr (scenario_catalog i1 p1 i2 p2 i3 p3))
         (fst (initializeApp (Inr ()) fetchData saveMenuItems
            (Inr (scenario_catalog i1 p1 i2 p2 i3 p3)) initial_state))))))
   = \<lparr>searchText = [],
      data = [\<lparr>sec_title = ''Appetizers'',
                sec_data = [\<lparr>id_item = i1, title = ''Hummus'', price = p1, category = ''Appetizers''\<rparr>]\<rparr>,
              \<lparr>sec_title = ''Salads'',
                sec_data = [\<lparr>id_item = i2, title = ''Greek Salad'', price = p2, category = ''Salads''\<rparr>]\<rparr>,
              \<lparr>sec_title = ''Beverages'',
                sec_data = [\<lparr>id_item = i3, title = ''Water'', price = p3, category = ''Beverages''\<rparr>]\<rparr>],
      filteredData =
        [\<lparr>sec_title = ''Salads'',
           sec_data = [\<lparr>id_item = i2, title = ''Greek Salad'', price = p2, category = ''Salads''\<rparr>]\<rparr>,
         \<lparr>sec_title = ''Beverages'',
           sec_data = [\<lparr>id_item = i3, title = ''Water'', price = p3, category = ''Beverages''\<rparr>]\<rparr>],
      selectedCategories = [''Salads'' \<mapsto> True, ''Beverages'' \<mapsto> True, ''Appetizers'' \<mapsto> False],
      categories = [''Appetizers'', ''Salads'', ''Beverages''],
      isLoading = False\<rparr>
   \<and> filteredSections unicode_lower (Inr (scenario_catalog i1 p1 i2 p2 i3 p3)) []
       [''Salads'' \<mapsto> True, ''Beverages'' \<mapsto> True, ''Appetizers'' \<mapsto> False]
     = Inr [\<lparr>sec_title = ''Salads'',
              sec_data = [\<lparr>id_item = i2, title = ''Greek Salad'', price = p2, category = ''Salads''\<rparr>]\<rparr>,
            \<lparr>sec_title = ''Beverages'',
              sec_data = [\<lparr>id_item = i3, title = ''Water'', price = p3, category = ''Beverages''\<rparr>]\<rparr>]"
  by (simp add: scenario_catalog_def eval_defs Let_def split: sum.splits)

end
